theory Spec2Isabelle
  imports Main "HOL-Library.Multiset"
begin

section \<open>The parse tree\<close>

text \<open>
  \<open>clean_html\<close> and \<open>extract_links\<close> of \<open>app.py\<close> work on the tree that
  BeautifulSoup builds from the markup. A node of that tree is a \<open>Tag\<close> with a name, a
  dictionary of attributes (kept in insertion order, as Python's dict is) and a list of
  contents, or a \<open>NavigableString\<close> (text, and also comments and declarations, which no
  function of \<open>app.py\<close> tells apart from text). The \<open>BeautifulSoup\<close> object itself is
  the list of the top-level nodes: \<open>find_all\<close> searches below it and never returns it.

  Characters are Isabelle's 8-bit \<open>char\<close>, read as the code points 0 to 255. Attribute
  values are strings (the parser also produces lists for \<open>class\<close> and a few others; the
  code never looks into a value of those).
\<close>

type_synonym attrs = "(string \<times> string) list"

datatype node =
    Tag string attrs "node list"
  | NavigableString string

type_synonym soup = "node list"

text \<open>\<open>element.get(key)\<close>: the value, or \<open>None\<close> when the key is absent.\<close>

definition attr_get :: "attrs \<Rightarrow> string \<Rightarrow> string option" where
  "attr_get as k = map_of as k"

section \<open>clean_html: the passes over the tree\<close>

definition unwanted_tags :: "string list" where
  "unwanted_tags =
     [''script'', ''style'', ''meta'', ''footer'', ''header'',
      ''nav'', ''aside'', ''form'', ''iframe'', ''noscript'']"

text \<open>
  \<open>for element in soup.find_all(tag): element.decompose()\<close>. \<open>find_all\<close> returns the
  list of every \<open>Tag\<close> below the soup whose name is \<open>tag\<close>; \<open>decompose\<close> takes an
  element out of its parent's contents and destroys it with everything below it (on an
  element already destroyed with one of its ancestors it changes nothing). After the
  inner loop the tree has lost each matching element together with its subtree, and
  nothing else.
\<close>

fun is_tag_named :: "string \<Rightarrow> node \<Rightarrow> bool" where
  "is_tag_named t (Tag n as cs) = (n = t)"
| "is_tag_named t (NavigableString s) = False"

fun decompose_in :: "string \<Rightarrow> node \<Rightarrow> node" where
  "decompose_in t (Tag n as cs) =
     Tag n as (map (decompose_in t) (filter (\<lambda>c. \<not> is_tag_named t c) cs))"
| "decompose_in t (NavigableString s) = NavigableString s"

definition decompose_all :: "string \<Rightarrow> soup \<Rightarrow> soup" where
  "decompose_all t soup = map (decompose_in t) (filter (\<lambda>c. \<not> is_tag_named t c) soup)"

text \<open>The outer loop, \<open>for tag in unwanted_tags\<close>, runs the inner one for each tag in turn.\<close>

fun remove_tags :: "string list \<Rightarrow> soup \<Rightarrow> soup" where
  "remove_tags [] soup = soup"
| "remove_tags (t # ts) soup = remove_tags ts (decompose_all t soup)"

text \<open>
  The body of \<open>for element in soup.find_all(True)\<close>, with the branches in the order of
  the source. The outer test lets in only the elements that are neither \<open>a\<close> nor \<open>img\<close>,
  so for them the two inner tests are false and the \<open>else\<close> branch runs; an \<open>a\<close> or
  \<open>img\<close> element takes no branch at all.
\<close>

definition truthy :: "string option \<Rightarrow> bool" where
  "truthy v = (case v of None \<Rightarrow> False | Some s \<Rightarrow> s \<noteq> [])"

definition clean_element_attrs :: "string \<Rightarrow> attrs \<Rightarrow> attrs" where
  "clean_element_attrs name as =
     (if name \<notin> set [''a'', ''img''] then
        (if name = ''a'' then
           (let href = attr_get as ''href''
            in if truthy href then [(''href'', the href)] else [])
         else if name = ''img'' then
           (let src = attr_get as ''src''; alt = attr_get as ''alt''
            in map (\<lambda>(k, v). (k, the v))
                 (filter (\<lambda>(k, v). truthy v) [(''src'', src), (''alt'', alt)]))
         else [])
      else as)"

fun clean_attrs_in :: "node \<Rightarrow> node" where
  "clean_attrs_in (Tag n as cs) = Tag n (clean_element_attrs n as) (map clean_attrs_in cs)"
| "clean_attrs_in (NavigableString s) = NavigableString s"

text \<open>Everything \<open>clean_html\<close> does between parsing and printing.\<close>

definition clean_soup :: "bool \<Rightarrow> soup \<Rightarrow> soup" where
  "clean_soup clean_attributes soup =
     (let soup1 = remove_tags unwanted_tags soup
      in if clean_attributes then map clean_attrs_in soup1 else soup1)"

section \<open>Reading a tree node by node\<close>

text \<open>
  The nodes of a tree in document order, each with the names of the elements it lies in
  (outermost first) and with what it is: an element with its name and attributes, or a
  string.
\<close>

datatype item = Element string attrs | Text string

fun nodes_in :: "string list \<Rightarrow> node \<Rightarrow> (string list \<times> item) list" where
  "nodes_in anc (Tag n as cs) =
     (anc, Element n as) # concat (map (nodes_in (anc @ [n])) cs)"
| "nodes_in anc (NavigableString s) = [(anc, Text s)]"

definition nodes_of :: "string list \<Rightarrow> soup \<Rightarrow> (string list \<times> item) list" where
  "nodes_of anc soup = concat (map (nodes_in anc) soup)"

fun item_names :: "item \<Rightarrow> string list" where
  "item_names (Element n as) = [n]"
| "item_names (Text s) = []"

text \<open>A node is outside every \<open>ts\<close> element: neither it nor an element around it has a name in \<open>ts\<close>.\<close>

definition outside :: "string list \<Rightarrow> string list \<times> item \<Rightarrow> bool" where
  "outside ts ni = (list_all (\<lambda>n. n \<notin> set ts) (fst ni @ item_names (snd ni)))"

text \<open>Rewriting what a node is, at its place.\<close>

fun at_item :: "(item \<Rightarrow> item) \<Rightarrow> string list \<times> item \<Rightarrow> string list \<times> item" where
  "at_item f (p, i) = (p, f i)"

fun strip_attrs :: "item \<Rightarrow> item" where
  "strip_attrs (Element n as) = Element n []"
| "strip_attrs (Text s) = Text s"

fun clean_item :: "item \<Rightarrow> item" where
  "clean_item (Element n as) = Element n (if n = ''a'' \<or> n = ''img'' then as else [])"
| "clean_item (Text s) = Text s"

section \<open>clean_html: from the tree back to a string\<close>

text \<open>
  Python's \<open>str.strip()\<close> removes the whitespace at both ends of a string, and
  \<open>str.splitlines()\<close> cuts a string at its line boundaries. Of the code points below
  256, Python counts 9 to 13, 28 to 32, 133 and 160 as whitespace, and 10 to 13, 28 to 30
  and 133 as line boundaries.
\<close>

definition is_space :: "char \<Rightarrow> bool" where
  "is_space c = (of_char c \<in> set [9, 10, 11, 12, 13, 28, 29, 30, 31, 32, 133, 160 :: nat])"

definition is_linebreak :: "char \<Rightarrow> bool" where
  "is_linebreak c = (of_char c \<in> set [10, 11, 12, 13, 28, 29, 30, 133 :: nat])"

definition strip :: "string \<Rightarrow> string" where
  "strip s = rev (dropWhile is_space (rev (dropWhile is_space s)))"

text \<open>
  \<open>splitlines\<close>: a line runs up to the next line boundary, which is not part of it; a
  carriage return followed by a line feed is one boundary; what follows the last boundary
  is a line only when it is not empty.
\<close>

fun skip_break :: "string \<Rightarrow> string" where
  "skip_break [] = []"
| "skip_break [c] = []"
| "skip_break (c # d # cs) = (if c = CHR 0x0D \<and> d = CHR 0x0A then cs else d # cs)"

function splitlines :: "string \<Rightarrow> string list" where
  "splitlines s =
     (if s = [] then []
      else takeWhile (\<lambda>c. \<not> is_linebreak c) s
             # splitlines (skip_break (dropWhile (\<lambda>c. \<not> is_linebreak c) s)))"
  by pat_completeness auto
termination
proof (relation "measure length")
  show "wf (measure length)" by simp
next
  fix s :: string
  assume "s \<noteq> []"
  have "length (skip_break (dropWhile (\<lambda>c. \<not> is_linebreak c) s)) < length s"
  proof (cases "dropWhile (\<lambda>c. \<not> is_linebreak c) s")
    case Nil
    have "skip_break (dropWhile (\<lambda>c. \<not> is_linebreak c) s) = []"
      by (simp only: Nil skip_break.simps)
    with \<open>s \<noteq> []\<close> show ?thesis by simp
  next
    case (Cons c cs)
    have "length (skip_break (c # cs)) < length (c # cs)"
      by (cases cs) simp_all
    also have "\<dots> \<le> length s"
      unfolding Cons [symmetric] by (rule length_dropWhile_le)
    finally show ?thesis by (simp only: Cons)
  qed
  then show "(skip_break (dropWhile (\<lambda>c. \<not> is_linebreak c) s), s) \<in> measure length"
    by simp
qed

declare splitlines.simps [simp del]

text \<open>\<open>"\\n".join(lines)\<close>\<close>

fun join_lines :: "string list \<Rightarrow> string" where
  "join_lines [] = []"
| "join_lines [l] = l"
| "join_lines (l # l' # ls) = l @ CHR 0x0A # join_lines (l' # ls)"

text \<open>
  Lines 89 to 91:
  \<open>"\\n".join(line.strip() for line in cleaned_html.splitlines() if line.strip())\<close>.
\<close>

definition strip_lines :: "string \<Rightarrow> string" where
  "strip_lines s = join_lines (map strip (filter (\<lambda>line. strip line \<noteq> []) (splitlines s)))"

text \<open>The lines that survive: the stripped forms of the lines that are not blank.\<close>

definition kept_lines :: "string \<Rightarrow> string list" where
  "kept_lines s = map strip (filter (\<lambda>line. strip line \<noteq> []) (splitlines s))"

text \<open>
  The parser \<open>BeautifulSoup(html_content, "html.parser")\<close> and the printer \<open>str(soup)\<close>
  belong to the bs4 library, not to this program: they are the parameters \<open>parser\<close> and
  \<open>decode\<close>. The parser may raise; an exception is its message.
\<close>

type_synonym exn = string

definition clean_html ::
  "(string \<Rightarrow> exn + soup) \<Rightarrow> (soup \<Rightarrow> string) \<Rightarrow> string \<Rightarrow> bool \<Rightarrow> exn + string" where
  "clean_html parser decode html_content clean_attributes =
     (case parser html_content of
        Inl e \<Rightarrow> Inl e
      | Inr soup \<Rightarrow> Inr (strip_lines (decode (clean_soup clean_attributes soup))))"

section \<open>extract_links\<close>

text \<open>
  \<open>soup.find_all(...)\<close> returns the elements below the soup that match, in document
  order. \<open>find_all(tag)\<close> matches by name, \<open>find_all(True)\<close> matches every element, and
  \<open>find_all('a', href=True)\<close> matches the \<open>a\<close> elements that have an \<open>href\<close> key.
\<close>

fun descendants_in :: "node \<Rightarrow> node list" where
  "descendants_in (Tag n as cs) = Tag n as cs # concat (map descendants_in cs)"
| "descendants_in (NavigableString s) = [NavigableString s]"

definition find_all :: "(node \<Rightarrow> bool) \<Rightarrow> soup \<Rightarrow> node list" where
  "find_all m soup = filter m (concat (map descendants_in soup))"

fun tag_attrs :: "node \<Rightarrow> attrs" where
  "tag_attrs (Tag n as cs) = as"
| "tag_attrs (NavigableString s) = []"

text \<open>
  The values \<open>a_tag['href']\<close> that the loop of \<open>extract_links\<close> reads, in order: one
  for each \<open>a\<close> element that has the key.
\<close>

definition hrefs :: "soup \<Rightarrow> string list" where
  "hrefs soup =
     List.map_filter (\<lambda>a_tag. attr_get (tag_attrs a_tag) ''href'')
       (find_all (is_tag_named ''a'') soup)"

definition startswith :: "string \<Rightarrow> string \<Rightarrow> bool" where
  "startswith s prefix = (take (length prefix) s = prefix)"

text \<open>\<open>base_url.rstrip('/')\<close> removes every slash at the end.\<close>

definition rstrip_slash :: "string \<Rightarrow> string" where
  "rstrip_slash s = rev (dropWhile (\<lambda>c. c = CHR ''/'') (rev s))"

text \<open>The body of the loop: what one \<open>href\<close> appends to \<open>links\<close>.\<close>

definition add_link :: "string \<Rightarrow> string list \<Rightarrow> string \<Rightarrow> string list" where
  "add_link base_url links href =
     (if startswith href ''http'' then links @ [href]
      else if startswith href ''/'' then links @ [rstrip_slash base_url @ href]
      else links)"

text \<open>The same, as the list of what one \<open>href\<close> contributes.\<close>

definition link_for :: "string \<Rightarrow> string \<Rightarrow> string list" where
  "link_for base_url href =
     (if startswith href ''http'' then [href]
      else if startswith href ''/'' then [rstrip_slash base_url @ href] else [])"

definition collected_links :: "soup \<Rightarrow> string \<Rightarrow> string list" where
  "collected_links soup base_url = foldl (add_link base_url) [] (hrefs soup)"

text \<open>
  \<open>list(set(links))\<close>: the set keeps one copy of each link, and lists them in an order
  of its own. That order is the parameter \<open>set_order\<close>, which rearranges the list of the
  distinct links.
\<close>

definition extract_links :: "(string list \<Rightarrow> string list) \<Rightarrow> soup \<Rightarrow> string \<Rightarrow> string list" where
  "extract_links set_order soup base_url = set_order (remdups (collected_links soup base_url))"

section \<open>scrape_url\<close>

text \<open>
  The browser is Selenium's: its calls are the fields of \<open>driver_api\<close>, over a state \<open>'d\<close>
  of the session that only they read and change. A call either raises (the exception is
  its message) or returns:
  \<^item> \<open>setup_selenium\<close> is \<open>setup_selenium()\<close>, the start of a headless Chrome;
  \<^item> \<open>get\<close> is \<open>driver.get(url)\<close>;
  \<^item> \<open>until_ready\<close> is \<open>WebDriverWait(driver, 10).until(...)\<close>, which raises when the
    ten seconds pass;
  \<^item> \<open>scroll_height\<close> and \<open>scroll_to_bottom\<close> are the two scripts that \<open>scroll_page\<close>
    gives to \<open>driver.execute_script\<close>;
  \<^item> \<open>sleep\<close> is \<open>time.sleep(2)\<close>, during which the page may change;
  \<^item> \<open>page_source\<close> is the read of \<open>driver.page_source\<close>.

  \<open>driver.quit()\<close> does not raise (Selenium's Chrome driver catches what its own
  \<open>quit\<close> raises).
\<close>

record 'd driver_api =
  setup_selenium :: "exn + 'd"
  get :: "string \<Rightarrow> 'd \<Rightarrow> exn option \<times> 'd"
  until_ready :: "'d \<Rightarrow> exn option \<times> 'd"
  scroll_height :: "'d \<Rightarrow> exn + int"
  scroll_to_bottom :: "'d \<Rightarrow> exn option \<times> 'd"
  sleep :: "'d \<Rightarrow> 'd"
  page_source :: "'d \<Rightarrow> exn + string"

text \<open>
  \<open>scroll_page\<close>: the loop has no bound, so it is a partial function: \<open>None\<close> is a run
  that never leaves the loop. A run that ends gives the exception, if one was raised, and
  the state of the session.
\<close>

partial_function (option) scroll_loop ::
  "'d driver_api \<Rightarrow> int \<Rightarrow> 'd \<Rightarrow> (exn option \<times> 'd) option" where
  "scroll_loop api last_height d =
     (case scroll_to_bottom api d of
        (Some e, d1) \<Rightarrow> Some (Some e, d1)
      | (None, d1) \<Rightarrow>
          (case scroll_height api (sleep api d1) of
             Inl e \<Rightarrow> Some (Some e, sleep api d1)
           | Inr new_height \<Rightarrow>
               if new_height = last_height then Some (None, sleep api d1)
               else scroll_loop api new_height (sleep api d1)))"

declare scroll_loop.simps [code]

definition scroll_page :: "'d driver_api \<Rightarrow> 'd \<Rightarrow> (exn option \<times> 'd) option" where
  "scroll_page api d =
     (case scroll_height api d of
        Inl e \<Rightarrow> Some (Some e, d)
      | Inr last_height \<Rightarrow> scroll_loop api last_height d)"

text \<open>An entry of \<open>links_data\<close>: the dictionary with the keys \<open>url\<close> and \<open>content\<close>.\<close>

record link_data =
  url :: string
  content :: string

text \<open>\<open>link_content[:500] + '...' if len(link_content) > 500 else link_content\<close>\<close>

definition excerpt :: "string \<Rightarrow> string" where
  "excerpt link_content =
     (if length link_content > 500 then take 500 link_content @ ''...'' else link_content)"

text \<open>
  The body of the inner \<open>try\<close>, lines 128 to 134, for one link: the entry to append, or
  the exception that the inner \<open>except\<close> catches; and the state of the session after it.
\<close>

definition scrape_link ::
  "'d driver_api \<Rightarrow> (string \<Rightarrow> exn + soup) \<Rightarrow> (soup \<Rightarrow> string) \<Rightarrow> string \<Rightarrow> 'd
     \<Rightarrow> (exn + link_data) \<times> 'd" where
  "scrape_link api parser decode link d =
     (case get api link d of
        (Some e, d1) \<Rightarrow> (Inl e, d1)
      | (None, d1) \<Rightarrow>
          (case page_source api (sleep api d1) of
             Inl e \<Rightarrow> (Inl e, sleep api d1)
           | Inr src \<Rightarrow>
               (case clean_html parser decode src True of
                  Inl e \<Rightarrow> (Inl e, sleep api d1)
                | Inr link_content \<Rightarrow>
                    (Inr \<lparr>url = link, content = excerpt link_content\<rparr>, sleep api d1))))"

text \<open>
  What the program has done to the world around it: \<open>driver\<close> is the local variable
  (\<open>None\<close> while \<open>'driver' in locals()\<close> is false), \<open>reported\<close> the messages given to
  \<open>st.error\<close>, in order, and \<open>quits\<close> the number of calls of \<open>driver.quit()\<close>.
\<close>

record 'd world =
  driver :: "'d option"
  reported :: "string list"
  quits :: nat

definition st_error :: "string \<Rightarrow> 'd world \<Rightarrow> 'd world" where
  "st_error msg w = w\<lparr>reported := reported w @ [msg]\<rparr>"

definition quit :: "'d world \<Rightarrow> 'd world" where
  "quit w = w\<lparr>quits := Suc (quits w)\<rparr>"

text \<open>The loop \<open>for link in all_links[:max_links]\<close>, lines 126 to 136.\<close>

fun scrape_links ::
  "'d driver_api \<Rightarrow> (string \<Rightarrow> exn + soup) \<Rightarrow> (soup \<Rightarrow> string) \<Rightarrow> string list
     \<Rightarrow> 'd \<times> 'd world \<times> link_data list \<Rightarrow> 'd \<times> 'd world \<times> link_data list" where
  "scrape_links api parser decode [] st = st"
| "scrape_links api parser decode (link # links) (d, w, links_data) =
     (case scrape_link api parser decode link d of
        (Inr entry, d') \<Rightarrow>
          scrape_links api parser decode links (d', w\<lparr>driver := Some d'\<rparr>, links_data @ [entry])
      | (Inl e, d') \<Rightarrow>
          scrape_links api parser decode links
            (d', st_error (''Error scraping link '' @ link @ '': '' @ e) (w\<lparr>driver := Some d'\<rparr>),
             links_data))"

text \<open>
  What the loop does link by link: each link with the outcome of its turn, the session
  passing from one turn to the next; the entries and the reports that these outcomes
  stand for.
\<close>

fun attempts ::
  "'d driver_api \<Rightarrow> (string \<Rightarrow> exn + soup) \<Rightarrow> (soup \<Rightarrow> string) \<Rightarrow> string list \<Rightarrow> 'd
     \<Rightarrow> (string \<times> (exn + link_data)) list" where
  "attempts api parser decode [] d = []"
| "attempts api parser decode (link # links) d =
     (case scrape_link api parser decode link d of
        (r, d') \<Rightarrow> (link, r) # attempts api parser decode links d')"

fun entry_of :: "string \<times> (exn + link_data) \<Rightarrow> link_data list" where
  "entry_of (link, Inr entry) = [entry]"
| "entry_of (link, Inl e) = []"

fun report_of :: "string \<times> (exn + link_data) \<Rightarrow> string list" where
  "report_of (link, Inr entry) = []"
| "report_of (link, Inl e) = [''Error scraping link '' @ link @ '': '' @ e]"


text \<open>\<open>all_links[:max_links]\<close>: a negative bound counts from the end.\<close>

definition slice_to :: "int \<Rightarrow> 'a list \<Rightarrow> 'a list" where
  "slice_to m xs = (if 0 \<le> m then take (nat m) xs else take (length xs - nat (- m)) xs)"

text \<open>
  The body of the outer \<open>try\<close>, lines 109 to 139: the pair it returns, or the exception
  that leaves it, and the world at that moment. \<open>None\<close> is a run that never leaves
  \<open>scroll_page\<close>.
\<close>

definition try_body ::
  "'d driver_api \<Rightarrow> (string \<Rightarrow> exn + soup) \<Rightarrow> (soup \<Rightarrow> string) \<Rightarrow> (string list \<Rightarrow> string list)
     \<Rightarrow> string \<Rightarrow> bool \<Rightarrow> int \<Rightarrow> 'd world
     \<Rightarrow> ((exn + string \<times> link_data list) \<times> 'd world) option" where
  "try_body api parser decode set_order page_url extract_links_flag max_links w =
     (case setup_selenium api of
        Inl e \<Rightarrow> Some (Inl e, w)
      | Inr d0 \<Rightarrow>
     (case get api page_url d0 of
        (Some e, d1) \<Rightarrow> Some (Inl e, w\<lparr>driver := Some d1\<rparr>)
      | (None, d1) \<Rightarrow>
     (case until_ready api d1 of
        (Some e, d2) \<Rightarrow> Some (Inl e, w\<lparr>driver := Some d2\<rparr>)
      | (None, d2) \<Rightarrow>
     (case scroll_page api d2 of
        None \<Rightarrow> None
      | Some (Some e, d3) \<Rightarrow> Some (Inl e, w\<lparr>driver := Some d3\<rparr>)
      | Some (None, d3) \<Rightarrow>
     (case page_source api d3 of
        Inl e \<Rightarrow> Some (Inl e, w\<lparr>driver := Some d3\<rparr>)
      | Inr src \<Rightarrow>
     (case parser src of
        Inl e \<Rightarrow> Some (Inl e, w\<lparr>driver := Some d3\<rparr>)
      | Inr soup \<Rightarrow>
     (case clean_html parser decode src True of
        Inl e \<Rightarrow> Some (Inl e, w\<lparr>driver := Some d3\<rparr>)
      | Inr main_content \<Rightarrow>
          (let (d4, w4, links_data) =
                 (if extract_links_flag
                  then scrape_links api parser decode
                         (slice_to max_links (extract_links set_order soup page_url))
                         (d3, w\<lparr>driver := Some d3\<rparr>, [])
                  else (d3, w\<lparr>driver := Some d3\<rparr>, []))
           in Some (Inr (main_content, links_data), quit w4)))))))))"

text \<open>
  \<open>scrape_url\<close>: the \<open>try\<close> with its \<open>except Exception\<close> (report, and return
  \<open>None, []\<close>) and its \<open>finally\<close> (quit when the variable \<open>driver\<close> exists). The result is
  the returned pair and the world after the call.
\<close>

definition scrape_url ::
  "'d driver_api \<Rightarrow> (string \<Rightarrow> exn + soup) \<Rightarrow> (soup \<Rightarrow> string) \<Rightarrow> (string list \<Rightarrow> string list)
     \<Rightarrow> string \<Rightarrow> bool \<Rightarrow> int
     \<Rightarrow> ((string option \<times> link_data list) \<times> 'd world) option" where
  "scrape_url api parser decode set_order page_url extract_links_flag max_links =
     (case try_body api parser decode set_order page_url extract_links_flag max_links
             \<lparr>driver = None, reported = [], quits = 0\<rparr> of
        None \<Rightarrow> None
      | Some (r, w) \<Rightarrow>
          (let (ret, w1) =
                 (case r of
                    Inr (main_content, links_data) \<Rightarrow> ((Some main_content, links_data), w)
                  | Inl e \<Rightarrow> ((None, []), st_error (''Error during scraping: '' @ e) w));
               w2 = (if driver w1 \<noteq> None then quit w1 else w1)
           in Some (ret, w2)))"

text \<open>
  The result of a fetch that was given up: nothing returned, one report, the session as
  it was left and the number of times it was quit.
\<close>

definition aborted :: "exn \<Rightarrow> 'd option \<Rightarrow> nat \<Rightarrow> ((string option \<times> link_data list) \<times> 'd world) option" where
  "aborted e d n =
     Some ((None, []), \<lparr>driver = d, reported = [''Error during scraping: '' @ e], quits = n\<rparr>)"

section \<open>ModelWrapper\<close>

text \<open>
  The reply of \<open>generate_content\<close> is read through \<open>hasattr(response, 'text') and
  response.text\<close>: the attribute is absent, or its read gives a string, or its read raises
  something other than an \<open>AttributeError\<close>, which \<open>hasattr\<close> lets through.
\<close>

datatype response = Absent | Value string | Raises exn

text \<open>
  The service is the parameter \<open>generate_content\<close>: what its \<open>n\<close>-th call answers to a
  prompt and a temperature. The state of the wrapper's caller is the number of calls made
  so far. The calls of the logger write to the diagnostics sink only and are left out.
\<close>

definition format_prompt :: "string \<Rightarrow> string \<Rightarrow> string" where
  "format_prompt system_prompt content_prompt =
     CHR 0x0A # ''[INST]'' @ CHR 0x0A # system_prompt @ CHR 0x0A # CHR 0x0A #
     ''Content to process:'' @ CHR 0x0A # content_prompt @ CHR 0x0A # ''[/INST]'' @ [CHR 0x0A]"

definition single_shot_completion ::
  "(nat \<Rightarrow> string \<Rightarrow> 't \<Rightarrow> exn + response) \<Rightarrow> string \<Rightarrow> string \<Rightarrow> 't \<Rightarrow> nat
     \<Rightarrow> (exn + string) \<times> nat" where
  "single_shot_completion generate_content system_prompt content_prompt temperature calls =
     (let formatted_prompt = format_prompt system_prompt content_prompt
      in case generate_content calls formatted_prompt temperature of
           Inl e \<Rightarrow> (Inl e, Suc calls)
         | Inr response \<Rightarrow>
             (case response of
                Absent \<Rightarrow> (Inr [], Suc calls)
              | Raises e \<Rightarrow> (Inl e, Suc calls)
              | Value text \<Rightarrow> (if text \<noteq> [] then (Inr text, Suc calls) else (Inr [], Suc calls))))"

text \<open>
  \<open>analyze_html_content\<close> builds the two prompts and makes the one call, at the
  temperature \<open>0.7\<close> (the parameter \<open>temperature\<close>: the model does not compute with it).
\<close>

definition system_prompt_text :: string where
  "system_prompt_text =
     ''You are an expert web developer and technical analyst with extensive knowledge in website design, '' @
     ''web frameworks, and modern web tools. Your task is to generate an extremely detailed, sentence-like '' @
     ''analysis of the website'' @ [CHR 0x27] @ ''s HTML structure and design. Include details on design elements such as the '' @
     ''location and styling of the brand logo, menu items (and their names if discernible), interactive effects '' @
     ''(e.g., spinning image effects, carousels, sliding sections), layout details (e.g., divisions with two '' @
     ''columns, grid structures), and any web frameworks or tools in use (e.g., Bootstrap, React, Angular, etc.). '' @
     ''Focus on clarity and precision in your descriptions.''"

definition content_prompt_text :: "string \<Rightarrow> string" where
  "content_prompt_text html_content =
     ''Examine the following website'' @ [CHR 0x27] @ ''s HTML content and provide a detailed sentence-like analysis. Your analysis '' @
     ''should mention specific design elements such as:'' @ [CHR 0x0A] @
     ''- The presence and location of a brand logo (for example, top left).'' @ [CHR 0x0A] @
     ''- Menu items and their names (for example, top right navigation).'' @ [CHR 0x0A] @
     ''- Any interactive visual effects (for example, a spinning image effect, carousels, sliding sections).'' @ [CHR 0x0A] @
     ''- Layout details (for example, a division with two columns, grid layout, etc.).'' @ [CHR 0x0A] @
     ''- Identification of any web frameworks, tools, or libraries in use.'' @ [CHR 0x0A, CHR 0x0A] @
     ''Here is the website'' @ [CHR 0x27] @ ''s HTML:'' @ [CHR 0x0A] @ html_content"

definition analyze_html_content ::
  "(nat \<Rightarrow> string \<Rightarrow> 't \<Rightarrow> exn + response) \<Rightarrow> 't \<Rightarrow> string \<Rightarrow> nat \<Rightarrow> (exn + string) \<times> nat" where
  "analyze_html_content generate_content temperature html_content calls =
     single_shot_completion generate_content system_prompt_text
       (content_prompt_text html_content) temperature calls"

section \<open>Reading items; example documents\<close>

fun item_of :: "node \<Rightarrow> item" where
  "item_of (Tag n as cs) = Element n as"
| "item_of (NavigableString s) = Text s"

definition is_anchor_or_image :: "string list \<times> item \<Rightarrow> bool" where
  "is_anchor_or_image ni = (item_names (snd ni) = [''a''] \<or> item_names (snd ni) = [''img''])"

text \<open>
  The tree of \<open><html><script>x</script><a href="/a" onclick="y">A</a></html>\<close>, and a
  tree with unwanted elements at several depths.
\<close>

definition scenario_soup :: soup where
  "scenario_soup =
     [Tag ''html'' []
        [Tag ''script'' [] [NavigableString ''x''],
         Tag ''a'' [(''href'', ''/a''), (''onclick'', ''y'')] [NavigableString ''A'']]]"

definition nested_soup :: soup where
  "nested_soup =
     [Tag ''div'' [(''class'', ''page'')]
        [Tag ''nav'' [] [Tag ''a'' [(''href'', ''/menu'')] [NavigableString ''Menu'']],
         Tag ''p'' [(''id'', ''intro'')]
           [NavigableString ''Hello'',
            Tag ''img'' [(''src'', ''/i.png''), (''width'', ''10'')] [],
            Tag ''form'' [] [Tag ''p'' [] [Tag ''script'' [] [NavigableString ''x()'']]]]]]"

text \<open>
  For the examples, a plain printer of trees (attribute values unquoted, nothing
  escaped), a tree with blank and indented lines in its strings, and a parser that knows
  the example documents: it refuses a string that starts with \<open><!\<close>, and reads any
  string it does not know as one string node.
\<close>

definition print_attrs :: "attrs \<Rightarrow> string" where
  "print_attrs as = concat (map (\<lambda>(k, v). '' '' @ k @ ''='' @ v) as)"

fun print_node :: "node \<Rightarrow> string" where
  "print_node (Tag n as cs) =
     ''<'' @ n @ print_attrs as @ ''>'' @ concat (map print_node cs) @ ''</'' @ n @ ''>''"
| "print_node (NavigableString s) = s"

definition print_soup :: "soup \<Rightarrow> string" where
  "print_soup soup = concat (map print_node soup)"

definition layout_soup :: soup where
  "layout_soup =
     [Tag ''div'' [(''class'', ''x'')]
        [NavigableString [CHR 0x0A, CHR '' '', CHR '' ''],
         Tag ''script'' [] [NavigableString ''s''],
         NavigableString [CHR 0x0D, CHR 0x0A, CHR '' ''],
         Tag ''p'' [(''id'', ''i'')] [NavigableString ''Hi''],
         NavigableString [CHR '' '', CHR 0x0A, CHR 0x09, CHR 0x0A]]]"

text \<open>A page with links of every form, two of them twice.\<close>

definition links_soup :: soup where
  "links_soup =
     [Tag ''body'' []
        [Tag ''a'' [(''href'', ''/about'')] [NavigableString ''About''],
         Tag ''a'' [(''href'', ''https://other.com/x'')] [],
         Tag ''p'' [] [Tag ''a'' [(''class'', ''c''), (''href'', ''contact.html'')] []],
         Tag ''a'' [(''name'', ''top'')] [],
         Tag ''a'' [(''href'', ''mailto:me@example.com'')] [],
         Tag ''a'' [(''href'', ''#top'')] [],
         Tag ''div'' [] [Tag ''a'' [(''href'', ''/about'')] [NavigableString ''About us'']],
         Tag ''a'' [(''href'', ''https://other.com/x'')] []]]"

definition example_parser :: "string \<Rightarrow> exn + soup" where
  "example_parser s =
     (if s = print_soup scenario_soup then Inr scenario_soup
      else if s = ''<html><a href=/a onclick=y>A</a></html>''
        then Inr [Tag ''html'' []
                    [Tag ''a'' [(''href'', ''/a''), (''onclick'', ''y'')] [NavigableString ''A'']]]
      else if s = print_soup layout_soup then Inr layout_soup
      else if s = print_soup links_soup then Inr links_soup
      else if startswith s ''<!'' then Inl ''unparseable markup''
      else Inr [NavigableString s])"

text \<open>
  A browser for the examples. The state of a session is the address it shows. The first
  argument is the step that fails (1 the start of the browser, 2 the first navigation,
  3 the wait, 4 the reading of the height, 5 the reading of the page, 6 a page that the
  parser refuses; 0 for none), the second the addresses that cannot be reached. The
  height of a page never changes.
\<close>

definition example_api :: "nat \<Rightarrow> string list \<Rightarrow> string driver_api" where
  "example_api failing_step unreachable =
     \<lparr>setup_selenium = (if failing_step = 1 then Inl ''no browser'' else Inr ''about:blank''),
      get = (\<lambda>u d. if failing_step = 2 \<or> u \<in> set unreachable
                     then (Some (''cannot reach '' @ u), d) else (None, u)),
      until_ready = (\<lambda>d. if failing_step = 3 then (Some ''timeout'', d) else (None, d)),
      scroll_height = (\<lambda>d. if failing_step = 4 then Inl ''script error'' else Inr 900),
      scroll_to_bottom = (\<lambda>d. (None, d)),
      sleep = (\<lambda>d. d),
      page_source = (\<lambda>d. if failing_step = 5 then Inl ''no page''
                          else if failing_step = 6 then Inr ''<!''
                          else if d = ''https://example.com/'' then Inr (print_soup links_soup)
                          else Inr (''text of '' @ d))\<rparr>"

text \<open>
  A service for the examples: its first call answers with a text, the second with a reply
  that has no \<open>text\<close>, the third with an empty text, the fourth fails, and the later ones
  give a reply whose \<open>text\<close> cannot be read.
\<close>

definition example_service :: "nat \<Rightarrow> string \<Rightarrow> string \<Rightarrow> exn + response" where
  "example_service n prompt temperature =
     (if n = 0 then Inr (Value ''A page with a logo at the top left.'')
      else if n = 1 then Inr Absent
      else if n = 2 then Inr (Value [])
      else if n = 3 then Inl ''quota exceeded''
      else Inr (Raises ''response was blocked''))"

section \<open>The nodes of a cleaned tree\<close>

lemma nodes_of_Nil [simp]: "nodes_of anc [] = []" by (simp add: nodes_of_def)
lemma nodes_of_Cons [simp]: "nodes_of anc (x # xs) = nodes_in anc x @ nodes_of anc xs" by (simp add: nodes_of_def)

lemma nodes_in_Tag [simp]: "nodes_in anc (Tag n as cs) = (anc, Element n as) # nodes_of (anc @ [n]) cs"
  by (simp add: nodes_of_def)

declare nodes_in.simps(1) [simp del]

lemma nodes_in_path: "ni \<in> set (nodes_in anc x) \<Longrightarrow> set anc \<subseteq> set (fst ni)"
proof (induction x arbitrary: anc)
  case (Tag n as cs)
  then show ?case by (fastforce simp: nodes_of_def)
next
  case (NavigableString s)
  then show ?case by simp
qed

lemma nodes_of_path: "ni \<in> set (nodes_of anc xs) \<Longrightarrow> set anc \<subseteq> set (fst ni)"
  by (auto simp: nodes_of_def dest: nodes_in_path)

lemma outside_Element: "outside ts (anc, Element n as) = (n \<notin> set ts \<and> (\<forall>m \<in> set anc. m \<notin> set ts))"
  by (auto simp: outside_def list_all_iff)

lemma outside_Text: "outside ts (anc, Text s) = (\<forall>m \<in> set anc. m \<notin> set ts)"
  by (auto simp: outside_def list_all_iff)

lemma outside_below:
  assumes "t \<in> set anc" "t \<in> set ts"
  shows "filter (outside ts) (nodes_of anc xs) = []"
proof -
  have "\<not> outside ts ni" if "ni \<in> set (nodes_of anc xs)" for ni
    using nodes_of_path [OF that] assms by (auto simp: outside_def list_all_iff)
  then show ?thesis by (simp add: filter_empty_conv)
qed

lemma outside_named:
  assumes "is_tag_named t x" "t \<in> set ts"
  shows "filter (outside ts) (nodes_in anc x) = []"
proof (cases x)
  case (Tag n as cs)
  with assms have "n = t" by simp
  with assms Tag show ?thesis
    by (simp add: outside_below [of t] outside_Element)
next
  case (NavigableString s)
  with assms show ?thesis by simp
qed

lemma nodes_decompose_list:
  assumes "\<And>c. c \<in> set cs \<Longrightarrow> \<not> is_tag_named t c \<Longrightarrow>
             nodes_in anc (decompose_in t c) = filter (outside [t]) (nodes_in anc c)"
  shows "nodes_of anc (map (decompose_in t) (filter (\<lambda>c. \<not> is_tag_named t c) cs)) =
         filter (outside [t]) (nodes_of anc cs)"
  using assms by (induction cs) (simp_all add: outside_named)

lemma nodes_decompose_in:
  "t \<notin> set anc \<Longrightarrow> \<not> is_tag_named t x \<Longrightarrow>
     nodes_in anc (decompose_in t x) = filter (outside [t]) (nodes_in anc x)"
proof (induction x arbitrary: anc)
  case (Tag n as cs)
  from Tag.prems have n: "n \<noteq> t" by simp
  with Tag.prems have anc: "t \<notin> set (anc @ [n])" by simp
  have "nodes_of (anc @ [n]) (map (decompose_in t) (filter (\<lambda>c. \<not> is_tag_named t c) cs)) =
        filter (outside [t]) (nodes_of (anc @ [n]) cs)"
    by (rule nodes_decompose_list) (rule Tag.IH [OF _ anc])
  with n Tag.prems show ?case
    by (simp add: outside_Element)
next
  case (NavigableString s)
  then show ?case by (simp add: outside_Text)
qed

lemma nodes_decompose_all:
  "t \<notin> set anc \<Longrightarrow> nodes_of anc (decompose_all t soup) = filter (outside [t]) (nodes_of anc soup)"
  unfolding decompose_all_def by (rule nodes_decompose_list) (rule nodes_decompose_in)

lemma outside_Cons: "outside (t # ts) ni = (outside [t] ni \<and> outside ts ni)"
  by (auto simp: outside_def list_all_iff)

lemma nodes_remove_tags:
  "set anc \<inter> set ts = {} \<Longrightarrow> nodes_of anc (remove_tags ts soup) = filter (outside ts) (nodes_of anc soup)"
proof (induction ts arbitrary: soup)
  case Nil
  then show ?case by (simp add: outside_def list_all_iff)
next
  case (Cons t ts)
  then show ?case
    by (simp add: nodes_decompose_all outside_Cons [of t ts] conj_commute)
qed

lemma clean_element_attrs_eq:
  "clean_element_attrs n as = (if n = ''a'' \<or> n = ''img'' then as else [])"
  by (simp add: clean_element_attrs_def)

lemma nodes_clean_attrs_in:
  "nodes_in anc (clean_attrs_in x) = map (at_item clean_item) (nodes_in anc x)"
proof (induction x arbitrary: anc)
  case (Tag n as cs)
  have "nodes_of (anc @ [n]) (map clean_attrs_in cs) =
        map (at_item clean_item) (nodes_of (anc @ [n]) cs)"
    using Tag.IH by (induction cs) simp_all
  then show ?case
    by (simp add: clean_element_attrs_eq)
next
  case (NavigableString s)
  then show ?case by simp
qed

lemma nodes_clean_attrs:
  "nodes_of anc (map clean_attrs_in soup) = map (at_item clean_item) (nodes_of anc soup)"
  by (induction soup) (simp_all add: nodes_clean_attrs_in)

lemma at_item_id: "map (at_item (\<lambda>i. i)) xs = xs"
  by (induction xs) auto

lemma nodes_clean_soup:
  "nodes_of [] (clean_soup ca soup) =
     map (at_item (if ca then clean_item else (\<lambda>i. i))) (filter (outside unwanted_tags) (nodes_of [] soup))"
  by (simp add: clean_soup_def Let_def nodes_clean_attrs nodes_remove_tags at_item_id)

section \<open>Cleaning a cleaned tree\<close>


lemma named_clean_attrs_in [simp]: "is_tag_named t (clean_attrs_in x) = is_tag_named t x"
  by (cases x) simp_all













section \<open>Lines\<close>

lemma splitlines_Nil [simp]: "splitlines [] = []"
  by (simp add: splitlines.simps)

lemma splitlines_line:
  assumes "l \<noteq> []" "\<forall>c \<in> set l. \<not> is_linebreak c"
  shows "splitlines l = [l]"
proof -
  from assms(2) have tw: "takeWhile (\<lambda>c. \<not> is_linebreak c) l = l"
    and dw: "dropWhile (\<lambda>c. \<not> is_linebreak c) l = []"
    by simp_all
  show ?thesis
    by (subst splitlines.simps) (simp only: tw dw assms(1) skip_break.simps splitlines_Nil if_False)
qed

lemma linebreak_LF: "is_linebreak (CHR 0x0A)"
  by (simp add: is_linebreak_def)

lemma splitlines_line_LF:
  assumes "\<forall>c \<in> set l. \<not> is_linebreak c" "rest \<noteq> []"
  shows "splitlines (l @ CHR 0x0A # rest) = l # splitlines rest"
proof -
  from assms(1) have "takeWhile (\<lambda>c. \<not> is_linebreak c) (l @ CHR 0x0A # rest) = l"
    by (simp add: takeWhile_append2 linebreak_LF)
  moreover from assms(1) have "dropWhile (\<lambda>c. \<not> is_linebreak c) (l @ CHR 0x0A # rest) = CHR 0x0A # rest"
    by (simp add: dropWhile_append2 linebreak_LF)
  moreover from assms(2) have "skip_break (CHR 0x0A # rest) = rest"
    by (cases rest) simp_all
  ultimately show ?thesis by (subst splitlines.simps) simp
qed

lemma join_lines_Nil_iff: "\<forall>l \<in> set ls. l \<noteq> [] \<Longrightarrow> join_lines ls = [] \<longleftrightarrow> ls = []"
  by (induction ls rule: join_lines.induct) simp_all

lemma splitlines_join_lines:
  assumes "\<forall>l \<in> set ls. l \<noteq> [] \<and> (\<forall>c \<in> set l. \<not> is_linebreak c)"
  shows "splitlines (join_lines ls) = ls"
  using assms
proof (induction ls rule: join_lines.induct)
  case 1
  show ?case by simp
next
  case (2 l)
  then show ?case by (simp add: splitlines_line)
next
  case (3 l l' ls)
  from 3 have "join_lines (l' # ls) \<noteq> []"
    using join_lines_Nil_iff [of "l' # ls"] by simp
  with 3 show ?case by (simp add: splitlines_line_LF)
qed

lemma splitlines_no_break: "l \<in> set (splitlines s) \<Longrightarrow> c \<in> set l \<Longrightarrow> \<not> is_linebreak c"
proof (induction s arbitrary: l rule: splitlines.induct)
  case (1 s)
  show ?case
  proof (cases "s = []")
    case True
    with 1 show ?thesis by simp
  next
    case False
    with "1.prems"(1) have "l = takeWhile (\<lambda>c. \<not> is_linebreak c) s \<or>
        l \<in> set (splitlines (skip_break (dropWhile (\<lambda>c. \<not> is_linebreak c) s)))"
      by (subst (asm) splitlines.simps) simp
    then show ?thesis
    proof
      assume "l = takeWhile (\<lambda>c. \<not> is_linebreak c) s"
      with "1.prems"(2) show ?thesis by (auto dest: set_takeWhileD)
    next
      assume "l \<in> set (splitlines (skip_break (dropWhile (\<lambda>c. \<not> is_linebreak c) s)))"
      with "1.IH" [OF False] "1.prems"(2) show ?thesis by blast
    qed
  qed
qed

lemma set_strip: "set (strip l) \<subseteq> set l"
proof
  fix x
  assume "x \<in> set (strip l)"
  then have "x \<in> set (dropWhile is_space (rev (dropWhile is_space l)))"
    by (simp add: strip_def)
  then have "x \<in> set (rev (dropWhile is_space l))" by (rule set_dropWhileD)
  then have "x \<in> set (dropWhile is_space l)" by simp
  then show "x \<in> set l" by (rule set_dropWhileD)
qed

lemma strip_ends:
  assumes "strip l \<noteq> []"
  shows "\<not> is_space (hd (strip l))" "\<not> is_space (last (strip l))"
proof -
  let ?m = "dropWhile is_space l"
  let ?r = "dropWhile is_space (rev ?m)"
  from assms have r: "?r \<noteq> []" by (simp add: strip_def)
  have m: "?m \<noteq> []"
  proof
    assume "?m = []"
    then have "?r = []" by (simp only: rev.simps dropWhile.simps)
    with r show False by contradiction
  qed
  from r have "\<not> is_space (hd ?r)" by (rule hd_dropWhile)
  with r show "\<not> is_space (last (strip l))" by (simp add: strip_def last_rev)
  from m have hm: "\<not> is_space (hd ?m)" by (rule hd_dropWhile)
  from r obtain k where k: "?r = drop k (rev ?m)" "k < length ?m"
    by (metis dropWhile_eq_drop drop_eq_Nil2 length_rev not_le_imp_less)
  then have "rev ?r = take (length ?m - k) ?m" by (simp add: rev_drop)
  with k have "hd (rev ?r) = hd ?m" by (simp add: hd_take)
  with hm show "\<not> is_space (hd (strip l))" by (simp add: strip_def)
qed

lemma strip_fixed:
  assumes "l \<noteq> []" "\<not> is_space (hd l)" "\<not> is_space (last l)"
  shows "strip l = l"
proof -
  from assms have "dropWhile is_space l = l" by (cases l) simp_all
  moreover from assms have "dropWhile is_space (rev l) = rev l" by (cases "rev l") (simp_all add: last_rev hd_rev)
  ultimately show ?thesis by (simp add: strip_def)
qed

lemma strip_strip: "strip (strip l) = strip l"
proof (cases "strip l = []")
  case True
  have "strip [] = []" by (simp add: strip_def)
  with True show ?thesis by (simp only:)
next
  case False
  then show ?thesis by (intro strip_fixed strip_ends)
qed

lemma kept_lines_props:
  assumes "l \<in> set (kept_lines s)"
  shows "l \<noteq> []" "strip l = l" "\<forall>c \<in> set l. \<not> is_linebreak c"
  using assms set_strip splitlines_no_break by (auto simp: kept_lines_def strip_strip) blast

lemma splitlines_strip_lines: "splitlines (strip_lines s) = kept_lines s"
  unfolding strip_lines_def kept_lines_def [symmetric]
  by (rule splitlines_join_lines) (use kept_lines_props in blast)

section \<open>find_all on a cleaned tree\<close>

lemma items_descendants:
  "map snd (nodes_in anc x) = map item_of (descendants_in x)"
proof (induction x arbitrary: anc)
  case (Tag n as cs)
  have "map snd (nodes_of (anc @ [n]) cs) = map item_of (concat (map descendants_in cs))"
    using Tag.IH by (induction cs) simp_all
  then show ?case by simp
next
  case (NavigableString s)
  show ?case by simp
qed

lemma items_of_soup: "map snd (nodes_of anc soup) = map item_of (concat (map descendants_in soup))"
  by (induction soup) (simp_all add: items_descendants)

lemma named_item_of: "is_tag_named t x \<longleftrightarrow> item_names (item_of x) = [t]"
  by (cases x) auto

lemma find_all_named_Nil:
  "find_all (is_tag_named t) soup = [] \<longleftrightarrow> (\<forall>ni \<in> set (nodes_of [] soup). item_names (snd ni) \<noteq> [t])"
proof -
  have "find_all (is_tag_named t) soup = [] \<longleftrightarrow>
        (\<forall>i \<in> set (map item_of (concat (map descendants_in soup))). item_names i \<noteq> [t])"
    by (simp add: find_all_def filter_empty_conv named_item_of)
  also have "\<dots> \<longleftrightarrow> (\<forall>i \<in> set (map snd (nodes_of [] soup)). item_names i \<noteq> [t])"
    by (simp only: items_of_soup)
  finally show ?thesis by simp
qed

lemma item_names_clean_item [simp]: "item_names (clean_item i) = item_names i"
  by (cases i) simp_all

lemma item_names_strip_attrs [simp]: "item_names (strip_attrs i) = item_names i"
  by (cases i) simp_all

lemma strip_attrs_clean_item [simp]: "strip_attrs (clean_item i) = strip_attrs i"
  by (cases i) simp_all

lemma outside_name: "outside ts ni \<Longrightarrow> item_names (snd ni) = [t] \<Longrightarrow> t \<notin> set ts"
  by (auto simp: outside_def list_all_iff)

lemma find_all_clean_soup:
  assumes "t \<in> set unwanted_tags"
  shows "find_all (is_tag_named t) (clean_soup ca soup) = []"
proof -
  have "item_names (snd ni) \<noteq> [t]" if "ni \<in> set (nodes_of [] (clean_soup ca soup))" for ni
  proof -
    from that obtain nj where nj: "outside unwanted_tags nj"
      and ni: "ni = at_item (if ca then clean_item else (\<lambda>i. i)) nj"
      by (auto simp: nodes_clean_soup)
    from ni have "item_names (snd ni) = item_names (snd nj)" by (cases nj) simp
    with outside_name [OF nj] assms show ?thesis by auto
  qed
  then show ?thesis by (simp add: find_all_named_Nil)
qed

section \<open>Anchors, images and line ends\<close>

lemma anchor_image_clean_item:
  "is_anchor_or_image (at_item clean_item ni) = is_anchor_or_image ni"
  by (cases ni) (simp add: is_anchor_or_image_def)

lemma anchor_image_unchanged:
  "is_anchor_or_image ni \<Longrightarrow> at_item clean_item ni = ni"
proof -
  assume a: "is_anchor_or_image ni"
  obtain p i where ni: "ni = (p, i)" by (cases ni)
  with a show ?thesis by (cases i) (auto simp: is_anchor_or_image_def)
qed

lemma filter_anchor_image_clean:
  "filter is_anchor_or_image (map (at_item clean_item) xs) = filter is_anchor_or_image xs"
  by (induction xs) (simp_all add: anchor_image_clean_item anchor_image_unchanged)

lemma kept_lines_ends:
  assumes "l \<in> set (kept_lines s)"
  shows "\<not> is_space (hd l)" "\<not> is_space (last l)"
proof -
  from assms have "l \<noteq> []" "strip l = l" by (rule kept_lines_props)+
  then have "strip l \<noteq> []" by simp
  from strip_ends [OF this] \<open>strip l = l\<close>
  show "\<not> is_space (hd l)" "\<not> is_space (last l)" by simp_all
qed

section \<open>The example documents, evaluated\<close>




lemma layout_parsed: "example_parser (print_soup layout_soup) = Inr layout_soup"
  by code_simp

lemma layout_clean_html:
  "clean_html example_parser print_soup (print_soup layout_soup) False =
     Inr (join_lines [''<div class=x>'', ''<p id=i>Hi</p>'', ''</div>''])"
  by code_simp

lemma layout_nodes:
  "filter (outside unwanted_tags) (nodes_of [] layout_soup) =
     [([], Element ''div'' [(''class'', ''x'')]),
      ([''div''], Text [CHR 0x0A, CHR '' '', CHR '' '']),
      ([''div''], Text [CHR 0x0D, CHR 0x0A, CHR '' '']),
      ([''div''], Element ''p'' [(''id'', ''i'')]),
      ([''div'', ''p''], Text ''Hi''),
      ([''div''], Text [CHR '' '', CHR 0x0A, CHR 0x09, CHR 0x0A])]"
  by code_simp

lemma layout_kept_lines:
  "kept_lines (print_soup (clean_soup False layout_soup)) =
     [''<div class=x>'', ''<p id=i>Hi</p>'', ''</div>'']"
  by code_simp

section \<open>The collected links\<close>

lemma foldl_add_link:
  "foldl (add_link base_url) links hs = links @ concat (map (link_for base_url) hs)"
  by (induction hs arbitrary: links) (simp_all add: add_link_def link_for_def)

lemma collected_links_eq:
  "collected_links soup base_url = concat (map (link_for base_url) (hrefs soup))"
  by (simp add: collected_links_def foldl_add_link)

lemma slash_not_http: "startswith href ''/'' \<Longrightarrow> \<not> startswith href ''http''"
  by (cases href) (auto simp: startswith_def)

lemma set_collected_links:
  "set (collected_links soup base_url) =
     set (filter (\<lambda>h. startswith h ''http'') (hrefs soup)) \<union>
     (\<lambda>h. rstrip_slash base_url @ h) ` set (filter (\<lambda>h. startswith h ''/'') (hrefs soup))"
  by (auto simp: collected_links_eq link_for_def slash_not_http split: if_splits)

lemma rstrip_slash_append:
  assumes "p \<noteq> []" "last p \<noteq> CHR ''/''"
  shows "rstrip_slash (p @ r) = p @ rstrip_slash r"
proof -
  from assms have "dropWhile (\<lambda>c. c = CHR ''/'') (rev p) = rev p"
    by (cases "rev p") (simp_all add: last_rev)
  then have "dropWhile (\<lambda>c. c = CHR ''/'') (rev r @ rev p) = dropWhile (\<lambda>c. c = CHR ''/'') (rev r) @ rev p"
    by (simp add: dropWhile_append dropWhile_eq_Nil_conv)
  then show ?thesis by (simp add: rstrip_slash_def)
qed

lemma startswith_append: "startswith s p \<longleftrightarrow> (\<exists>r. s = p @ r)"
proof
  assume "startswith s p"
  then have "s = p @ drop (length p) s"
    using append_take_drop_id [of "length p" s] by (simp add: startswith_def)
  then show "\<exists>r. s = p @ r" ..
next
  assume "\<exists>r. s = p @ r"
  then show "startswith s p" by (auto simp: startswith_def)
qed

lemma http_base:
  assumes "startswith base_url ''http''"
  shows "startswith (rstrip_slash base_url @ h) ''http''"
proof -
  from assms obtain r where "base_url = ''http'' @ r" by (auto simp: startswith_append)
  then have "rstrip_slash base_url @ h = ''http'' @ (rstrip_slash r @ h)"
    using rstrip_slash_append [of "''http''" r] by simp
  then show ?thesis unfolding startswith_append by blast
qed

lemma set_order_props:
  assumes "\<And>xs. mset (set_order xs) = mset xs"
  shows "set (set_order xs) = set xs" "distinct (set_order xs) = distinct xs"
proof -
  show "set (set_order xs) = set xs" by (rule mset_eq_setD) (rule assms)
  show "distinct (set_order xs) = distinct xs" by (rule mset_eq_imp_distinct_iff) (rule assms)
qed

lemma links_hrefs:
  "hrefs links_soup =
     [''/about'', ''https://other.com/x'', ''contact.html'', ''mailto:me@example.com'', ''#top'',
      ''/about'', ''https://other.com/x'']"
  by code_simp

lemma links_extracted:
  "extract_links rev links_soup ''https://example.com/'' =
     [''https://other.com/x'', ''https://example.com/about'']"
  by code_simp

section \<open>The loop over the links\<close>

lemma scrape_links_attempts:
  "scrape_links api parser decode links (d, w, links_data) = (d', w', links_data') \<Longrightarrow>
     links_data' = links_data @ concat (map entry_of (attempts api parser decode links d)) \<and>
     reported w' = reported w @ concat (map report_of (attempts api parser decode links d)) \<and>
     quits w' = quits w \<and>
     (driver w \<noteq> None \<longrightarrow> driver w' \<noteq> None)"
proof (induction links arbitrary: d w links_data)
  case Nil
  then show ?case by simp
next
  case (Cons link links)
  obtain r d1 where step: "scrape_link api parser decode link d = (r, d1)"
    by (cases "scrape_link api parser decode link d")
  show ?case
  proof (cases r)
    case (Inl e)
    with step Cons.prems have
      "scrape_links api parser decode links
         (d1, st_error (''Error scraping link '' @ link @ '': '' @ e) (w\<lparr>driver := Some d1\<rparr>),
          links_data) = (d', w', links_data')"
      by simp
    from Cons.IH [OF this] step Inl show ?thesis
      by (simp add: st_error_def)
  next
    case (Inr entry)
    with step Cons.prems have
      "scrape_links api parser decode links (d1, w\<lparr>driver := Some d1\<rparr>, links_data @ [entry]) =
         (d', w', links_data')"
      by simp
    from Cons.IH [OF this] step Inr show ?thesis
      by simp
  qed
qed







lemma scrape_link_entry:
  assumes "scrape_link api parser decode link d = (Inr entry, d')"
  shows "url entry = link \<and>
     (\<exists>src link_content. page_source api d' = Inr src \<and>
        clean_html parser decode src True = Inr link_content \<and>
        content entry = excerpt link_content)"
proof -
  obtain r d1 where g: "get api link d = (r, d1)" by (cases "get api link d")
  with assms have r: "r = None" by (cases r) (simp_all add: scrape_link_def)
  with assms g obtain src where src: "page_source api (sleep api d1) = Inr src"
    by (cases "page_source api (sleep api d1)") (simp_all add: scrape_link_def)
  with assms g r obtain link_content where c: "clean_html parser decode src True = Inr link_content"
    by (cases "clean_html parser decode src True") (simp_all add: scrape_link_def)
  with assms g r src have "entry = \<lparr>url = link, content = excerpt link_content\<rparr>" "d' = sleep api d1"
    by (simp_all add: scrape_link_def)
  with src c show ?thesis by simp
qed

lemma short_link:
  "scrape_link (example_api 0 []) example_parser print_soup ''a'' ''start'' =
     (Inr \<lparr>url = ''a'', content = ''text of a''\<rparr>, ''a'')"
  by code_simp

section \<open>The outer try\<close>

lemma try_body_driver:
  assumes "try_body api parser decode set_order page_url flag max_links w = Some (r, w')"
    and "setup_selenium api = Inr d0"
  shows "driver w' \<noteq> None"
proof -
  obtain r1 d1 where g: "get api page_url d0 = (r1, d1)" by (cases "get api page_url d0")
  show ?thesis
  proof (cases r1)
    case (Some e)
    with assms g show ?thesis by (auto simp: try_body_def)
  next
    case None
    note r1 = this
    obtain r2 d2 where u: "until_ready api d1 = (r2, d2)" by (cases "until_ready api d1")
    show ?thesis
    proof (cases r2)
      case (Some e)
      with assms g r1 u show ?thesis by (auto simp: try_body_def)
    next
      case None
      note r2 = this
      from assms g r1 u r2 obtain r3 d3 where s: "scroll_page api d2 = Some (r3, d3)"
        by (cases "scroll_page api d2") (auto simp: try_body_def)
      show ?thesis
      proof (cases r3)
        case (Some e)
        with assms g r1 u r2 s show ?thesis by (auto simp: try_body_def)
      next
        case None
        note r3 = this
        show ?thesis
        proof (cases "page_source api d3")
          case (Inl e)
          with assms g r1 u r2 s r3 show ?thesis by (auto simp: try_body_def)
        next
          case (Inr src)
          note src = this
          show ?thesis
          proof (cases "parser src")
            case (Inl e)
            with assms g r1 u r2 s r3 src show ?thesis by (auto simp: try_body_def)
          next
            case (Inr soup)
            note soup = this
            then have c: "clean_html parser decode src True =
                Inr (strip_lines (decode (clean_soup True soup)))"
              by (simp add: clean_html_def)
            show ?thesis
            proof (cases flag)
              case False
              with assms g r1 u r2 s r3 src soup c show ?thesis
                by (auto simp: try_body_def quit_def)
            next
              case True
              obtain d4 w4 links_data where l:
                "scrape_links api parser decode
                   (slice_to max_links (extract_links set_order soup page_url))
                   (d3, w\<lparr>driver := Some d3\<rparr>, []) = (d4, w4, links_data)"
                by (metis prod_cases3)
              from scrape_links_attempts [OF l] have "driver w4 \<noteq> None" by simp
              with assms g r1 u r2 s r3 src soup c True l show ?thesis
                by (auto simp: try_body_def quit_def)
            qed
          qed
        qed
      qed
    qed
  qed
qed

lemma scrape_url_releases:
  assumes "scrape_url api parser decode set_order page_url flag max_links = Some (ret, w)"
    and "setup_selenium api = Inr d0"
  shows "driver w \<noteq> None \<and> 1 \<le> quits w"
proof -
  from assms(1) obtain r w' where t:
    "try_body api parser decode set_order page_url flag max_links
       \<lparr>driver = None, reported = [], quits = 0\<rparr> = Some (r, w')"
    by (cases "try_body api parser decode set_order page_url flag max_links
       \<lparr>driver = None, reported = [], quits = 0\<rparr>") (auto simp: scrape_url_def)
  from try_body_driver [OF t assms(2)] have d: "driver w' \<noteq> None" .
  show ?thesis
  proof (cases r)
    case (Inl e)
    with assms(1) t d show ?thesis
      by (auto simp: scrape_url_def st_error_def quit_def)
  next
    case (Inr p)
    with assms(1) t d show ?thesis
      by (cases p) (auto simp: scrape_url_def quit_def)
  qed
qed

lemma fail_chrome:
  "setup_selenium api = Inl e \<Longrightarrow>
     scrape_url api parser decode set_order page_url flag max_links = aborted e None 0"
  by (simp add: scrape_url_def try_body_def st_error_def aborted_def)

lemma fail_get:
  "setup_selenium api = Inr d0 \<Longrightarrow> get api page_url d0 = (Some e, d1) \<Longrightarrow>
     scrape_url api parser decode set_order page_url flag max_links = aborted e (Some d1) 1"
  by (simp add: scrape_url_def try_body_def st_error_def quit_def aborted_def)

lemma fail_wait:
  "setup_selenium api = Inr d0 \<Longrightarrow> get api page_url d0 = (None, d1) \<Longrightarrow>
   until_ready api d1 = (Some e, d2) \<Longrightarrow>
     scrape_url api parser decode set_order page_url flag max_links = aborted e (Some d2) 1"
  by (simp add: scrape_url_def try_body_def st_error_def quit_def aborted_def)

lemma fail_scroll:
  "setup_selenium api = Inr d0 \<Longrightarrow> get api page_url d0 = (None, d1) \<Longrightarrow>
   until_ready api d1 = (None, d2) \<Longrightarrow> scroll_page api d2 = Some (Some e, d3) \<Longrightarrow>
     scrape_url api parser decode set_order page_url flag max_links = aborted e (Some d3) 1"
  by (simp add: scrape_url_def try_body_def st_error_def quit_def aborted_def)

lemma fail_source:
  "setup_selenium api = Inr d0 \<Longrightarrow> get api page_url d0 = (None, d1) \<Longrightarrow>
   until_ready api d1 = (None, d2) \<Longrightarrow> scroll_page api d2 = Some (None, d3) \<Longrightarrow>
   page_source api d3 = Inl e \<Longrightarrow>
     scrape_url api parser decode set_order page_url flag max_links = aborted e (Some d3) 1"
  by (simp add: scrape_url_def try_body_def st_error_def quit_def aborted_def)

lemma fail_parse:
  "setup_selenium api = Inr d0 \<Longrightarrow> get api page_url d0 = (None, d1) \<Longrightarrow>
   until_ready api d1 = (None, d2) \<Longrightarrow> scroll_page api d2 = Some (None, d3) \<Longrightarrow>
   page_source api d3 = Inr src \<Longrightarrow> parser src = Inl e \<Longrightarrow>
     scrape_url api parser decode set_order page_url flag max_links = aborted e (Some d3) 1"
  by (simp add: scrape_url_def try_body_def st_error_def quit_def aborted_def)

lemma fetch_succeeds:
  assumes "setup_selenium api = Inr d0" "get api page_url d0 = (None, d1)" "until_ready api d1 = (None, d2)"
    "scroll_page api d2 = Some (None, d3)" "page_source api d3 = Inr src" "parser src = Inr soup"
  shows "\<exists>links_data w.
     scrape_url api parser decode set_order page_url flag max_links =
       Some ((Some (strip_lines (decode (clean_soup True soup))), links_data), w) \<and>
     reported w = concat (map report_of (attempts api parser decode
        (if flag then slice_to max_links (extract_links set_order soup page_url) else []) d3)) \<and>
     quits w = 2"
proof -
  have c: "clean_html parser decode src True = Inr (strip_lines (decode (clean_soup True soup)))"
    using assms(6) by (simp add: clean_html_def)
  show ?thesis
  proof (cases flag)
    case False
    with assms c show ?thesis
      by (simp add: scrape_url_def try_body_def quit_def)
  next
    case True
    obtain d4 w4 links_data where l:
      "scrape_links api parser decode
         (slice_to max_links (extract_links set_order soup page_url))
         (d3, \<lparr>driver = Some d3, reported = [], quits = 0\<rparr>, []) = (d4, w4, links_data)"
      by (metis prod_cases3)
    from scrape_links_attempts [OF l] have "driver w4 \<noteq> None" "quits w4 = 0"
      "reported w4 = concat (map report_of (attempts api parser decode
         (slice_to max_links (extract_links set_order soup page_url)) d3))"
      by simp_all
    with assms c True l show ?thesis
      by (simp add: scrape_url_def try_body_def quit_def)
  qed
qed

lemma example_scroll:
  "scroll_page (example_api 4 []) ''https://example.com/'' = Some (Some ''script error'', ''https://example.com/'')"
  "scroll_page (example_api 5 []) ''https://example.com/'' = Some (None, ''https://example.com/'')"
  "scroll_page (example_api 6 []) ''https://example.com/'' = Some (None, ''https://example.com/'')"
  "scroll_page (example_api 0 []) ''https://example.com/'' = Some (None, ''https://example.com/'')"
  by code_simp+


section \<open>The sanitizer on the tree\<close>

text \<open>
  Claim C1. With \<open>clean_attributes=True\<close> an anchor is to keep only its \<open>href\<close>: the
  document \<open><html><script>x</script><a href="/a" onclick="y">A</a></html>\<close> is to come
  out with the script removed and the anchor as \<open><a href="/a">A</a>\<close>.
  The code removes the script, but the test \<open>element.name not in ["a", "img"]\<close> keeps
  every anchor out of the branch that would rewrite its attributes: \<open>onclick\<close> is still
  there.
\<close>

theorem clean_html_scenario_keeps_onclick:
  "clean_soup True scenario_soup =
     [Tag ''html'' [] [Tag ''a'' [(''href'', ''/a''), (''onclick'', ''y'')] [NavigableString ''A'']]]"
  by (simp add: clean_soup_def scenario_soup_def unwanted_tags_def decompose_all_def
      clean_element_attrs_def)



text \<open>
  Claim C9. With \<open>clean_attributes=True\<close>, the anchors and images of the cleaned tree are
  the anchors and images of the document outside the unwanted elements, each with the
  attribute list it had: the pass rewrites the attributes of the other elements only,
  and those it empties.
\<close>

theorem clean_soup_keeps_anchor_image_attrs:
  "filter is_anchor_or_image (nodes_of [] (clean_soup True soup)) =
     filter is_anchor_or_image (filter (outside unwanted_tags) (nodes_of [] soup)) \<and>
   nodes_of [] (clean_soup True soup) =
     map (at_item clean_item) (filter (outside unwanted_tags) (nodes_of [] soup))"
  by (simp add: nodes_clean_soup filter_anchor_image_clean)

theorem clean_soup_keeps_anchor_image_attrs_witness:
  "filter is_anchor_or_image (nodes_of [] (clean_soup True scenario_soup)) =
     [([''html''], Element ''a'' [(''href'', ''/a''), (''onclick'', ''y'')])] \<and>
   filter is_anchor_or_image (nodes_of [] (clean_soup True nested_soup)) =
     [([''div'', ''p''], Element ''img'' [(''src'', ''/i.png''), (''width'', ''10'')])] \<and>
   nodes_of [] (clean_soup True nested_soup) =
     [([], Element ''div'' []), ([''div''], Element ''p'' []),
      ([''div'', ''p''], Text ''Hello''),
      ([''div'', ''p''], Element ''img'' [(''src'', ''/i.png''), (''width'', ''10'')])]"
  using clean_soup_keeps_anchor_image_attrs [of scenario_soup]
    clean_soup_keeps_anchor_image_attrs [of nested_soup]
  by (simp add: unwanted_tags_def nested_soup_def scenario_soup_def outside_def is_anchor_or_image_def)

section \<open>The sanitizer on the string\<close>



text \<open>
  Claim C10. With \<open>clean_attributes=False\<close> the cleaned tree has exactly the nodes of
  the document that are outside the unwanted elements, each element with the attribute
  list it had, and no unwanted element is left; and the string returned, cut into lines
  again, gives the stripped forms of the non-blank lines of the printed tree, in their
  order: none of them is empty or begins or ends with whitespace.
\<close>

theorem clean_html_keeping_attributes:
  "nodes_of [] (clean_soup False soup) = filter (outside unwanted_tags) (nodes_of [] soup) \<and>
   (\<forall>t \<in> set unwanted_tags. find_all (is_tag_named t) (clean_soup False soup) = []) \<and>
   (parser html_content = Inr soup \<longrightarrow>
      (\<exists>out. clean_html parser decode html_content False = Inr out \<and>
         splitlines out = kept_lines (decode (clean_soup False soup)) \<and>
         (\<forall>l \<in> set (splitlines out). l \<noteq> [] \<and> \<not> is_space (hd l) \<and> \<not> is_space (last l))))"
proof -
  let ?out = "strip_lines (decode (clean_soup False soup))"
  have lines: "splitlines ?out = kept_lines (decode (clean_soup False soup))"
    by (rule splitlines_strip_lines)
  have ends: "\<forall>l \<in> set (splitlines ?out). l \<noteq> [] \<and> \<not> is_space (hd l) \<and> \<not> is_space (last l)"
    using kept_lines_props(1) kept_lines_ends by (simp add: splitlines_strip_lines)
  have "clean_html parser decode html_content False = Inr ?out"
    if "parser html_content = Inr soup"
    by (simp add: clean_html_def that)
  with lines ends have
    "parser html_content = Inr soup \<longrightarrow>
       (\<exists>out. clean_html parser decode html_content False = Inr out \<and>
          splitlines out = kept_lines (decode (clean_soup False soup)) \<and>
          (\<forall>l \<in> set (splitlines out). l \<noteq> [] \<and> \<not> is_space (hd l) \<and> \<not> is_space (last l)))"
    by blast
  moreover have "nodes_of [] (clean_soup False soup) = filter (outside unwanted_tags) (nodes_of [] soup)"
    by (simp add: nodes_clean_soup at_item_id)
  moreover have "\<forall>t \<in> set unwanted_tags. find_all (is_tag_named t) (clean_soup False soup) = []"
    by (simp add: find_all_clean_soup)
  ultimately show ?thesis by blast
qed

theorem clean_html_keeping_attributes_witness:
  "example_parser (print_soup layout_soup) = Inr layout_soup \<and>
   clean_html example_parser print_soup (print_soup layout_soup) False =
     Inr (join_lines [''<div class=x>'', ''<p id=i>Hi</p>'', ''</div>'']) \<and>
   splitlines (join_lines [''<div class=x>'', ''<p id=i>Hi</p>'', ''</div>'']) =
     [''<div class=x>'', ''<p id=i>Hi</p>'', ''</div>''] \<and>
   nodes_of [] (clean_soup False layout_soup) =
     [([], Element ''div'' [(''class'', ''x'')]),
      ([''div''], Text [CHR 0x0A, CHR '' '', CHR '' '']),
      ([''div''], Text [CHR 0x0D, CHR 0x0A, CHR '' '']),
      ([''div''], Element ''p'' [(''id'', ''i'')]),
      ([''div'', ''p''], Text ''Hi''),
      ([''div''], Text [CHR '' '', CHR 0x0A, CHR 0x09, CHR 0x0A])] \<and>
   find_all (is_tag_named ''script'') (clean_soup False layout_soup) = []"
proof -
  have parse: "example_parser (print_soup layout_soup) = Inr layout_soup"
    by (rule layout_parsed)
  have script: "''script'' \<in> set unwanted_tags"
    by (simp add: unwanted_tags_def)
  from clean_html_keeping_attributes [of layout_soup example_parser "print_soup layout_soup" print_soup]
    parse script
  show ?thesis
    by (simp add: layout_clean_html layout_nodes layout_kept_lines)
qed

section \<open>The link extractor\<close>

text \<open>
  Claim C4. For every document and base, and whatever order Python's set lists its
  elements in, the result has no duplicates and holds exactly the \<open>href\<close> values that
  begin with \<open>http\<close>, as they are, and the base without its trailing slashes followed by
  each \<open>href\<close> that begins with \<open>/\<close>. An \<open>href\<close> of any other form adds nothing; when
  the base itself begins with \<open>http\<close>, as the address of a fetched page does, no such
  \<open>href\<close> occurs in the result.
\<close>

theorem extract_links_result:
  assumes "\<And>xs. mset (set_order xs) = mset xs"
  shows "distinct (extract_links set_order soup base_url) \<and>
    set (extract_links set_order soup base_url) =
      set (filter (\<lambda>h. startswith h ''http'') (hrefs soup)) \<union>
      (\<lambda>h. rstrip_slash base_url @ h) ` set (filter (\<lambda>h. startswith h ''/'') (hrefs soup)) \<and>
    (\<forall>href \<in> set (hrefs soup).
       (startswith href ''http'' \<longrightarrow> href \<in> set (extract_links set_order soup base_url)) \<and>
       (startswith href ''/'' \<longrightarrow>
          rstrip_slash base_url @ href \<in> set (extract_links set_order soup base_url)) \<and>
       (\<not> startswith href ''http'' \<and> \<not> startswith href ''/'' \<and> startswith base_url ''http'' \<longrightarrow>
          href \<notin> set (extract_links set_order soup base_url)))"
proof -
  let ?r = "extract_links set_order soup base_url"
  have d: "distinct ?r"
    by (simp add: extract_links_def set_order_props [OF assms])
  have s: "set ?r =
      set (filter (\<lambda>h. startswith h ''http'') (hrefs soup)) \<union>
      (\<lambda>h. rstrip_slash base_url @ h) ` set (filter (\<lambda>h. startswith h ''/'') (hrefs soup))"
    by (simp add: extract_links_def set_order_props [OF assms] set_collected_links)
  have "href \<notin> set ?r"
    if "\<not> startswith href ''http''" "startswith base_url ''http''" for href
  proof
    assume "href \<in> set ?r"
    with s that(1) obtain h where "href = rstrip_slash base_url @ h" by auto
    with http_base [OF that(2)] that(1) show False by simp
  qed
  with d s show ?thesis by auto
qed

theorem extract_links_result_witness:
  "extract_links rev links_soup ''https://example.com/'' =
     [''https://other.com/x'', ''https://example.com/about''] \<and>
   distinct (extract_links rev links_soup ''https://example.com/'') \<and>
   ''/about'' \<in> set (hrefs links_soup) \<and> ''contact.html'' \<in> set (hrefs links_soup) \<and>
   rstrip_slash ''https://example.com/'' @ ''/about'' = ''https://example.com/about'' \<and>
   ''contact.html'' \<notin> set (extract_links rev links_soup ''https://example.com/'')"
proof -
  have perm: "\<And>xs :: string list. mset (rev xs) = mset xs" by simp
  have "rstrip_slash ''https://example.com/'' @ ''/about'' = ''https://example.com/about''"
    by (simp add: rstrip_slash_def)
  moreover have "startswith ''https://example.com/'' ''http''" "\<not> startswith ''contact.html'' ''http''"
    "\<not> startswith ''contact.html'' ''/''"
    by (simp_all add: startswith_def)
  moreover note extract_links_result [of rev links_soup "''https://example.com/''", OF perm]
  ultimately show ?thesis
    by (simp add: links_hrefs links_extracted)
qed

section \<open>The page fetcher\<close>



text \<open>
  Claim C7. The entry recorded for a link carries the link's address and the excerpt of
  the sanitized content of the page the browser then shows; the excerpt of a content of
  more than 500 characters is its first 500 characters followed by three dots, 503
  characters in all, and the excerpt of a content of at most 500 characters is the
  content itself.
\<close>

theorem link_excerpt:
  "(scrape_link api parser decode link d = (Inr entry, d') \<longrightarrow>
      url entry = link \<and>
      (\<exists>src link_content. page_source api d' = Inr src \<and>
         clean_html parser decode src True = Inr link_content \<and>
         content entry = excerpt link_content)) \<and>
   (length link_content > 500 \<longrightarrow>
      excerpt link_content = take 500 link_content @ ''...'' \<and>
      length (excerpt link_content) = 503) \<and>
   (length link_content \<le> 500 \<longrightarrow> excerpt link_content = link_content)"
  using scrape_link_entry [of api parser decode link d entry d']
  by (simp add: excerpt_def)

theorem link_excerpt_witness:
  "scrape_link (example_api 0 []) example_parser print_soup ''a'' ''start'' =
     (Inr \<lparr>url = ''a'', content = ''text of a''\<rparr>, ''a'') \<and>
   length ''text of a'' \<le> 500 \<and> excerpt ''text of a'' = ''text of a'' \<and>
   length (replicate 501 (CHR ''a'')) > 500 \<and>
   excerpt (replicate 501 (CHR ''a'')) = replicate 500 (CHR ''a'') @ ''...'' \<and>
   length (excerpt (replicate 501 (CHR ''a''))) = 503"
proof -
  let ?long = "replicate 501 (CHR ''a'')"
  have long: "length ?long > 500" by simp
  have short: "length ''text of a'' \<le> 500" by simp
  have "take 500 ?long = replicate 500 (CHR ''a'')" by simp
  moreover have "excerpt ?long = take 500 ?long @ ''...'' \<and> length (excerpt ?long) = 503"
    using link_excerpt [of "example_api 0 []" example_parser print_soup "''a''" "''start''"
        "\<lparr>url = ''a'', content = ''text of a''\<rparr>" "''a''" ?long] long
    by blast
  moreover have "excerpt ''text of a'' = ''text of a''"
    using link_excerpt [of "example_api 0 []" example_parser print_soup "''a''" "''start''"
        "\<lparr>url = ''a'', content = ''text of a''\<rparr>" "''a''" "''text of a''"] short
    by blast
  ultimately show ?thesis
    using long short short_link by simp
qed

text \<open>
  Claim C5. A failure in the first part of the fetch (starting the browser, the
  navigation, the wait, the scrolling, reading the page, parsing it for the sanitizer)
  makes \<open>scrape_url\<close> return \<open>(None, [])\<close> with the failure as the one message given
  to the caller; the session, if one was started, has been quit once. When all of these
  succeed the sanitized page is returned and the session has been quit (twice: at the end
  of the \<open>try\<close> and in the \<open>finally\<close>). In every run that returns with a session started,
  the session has been quit.
\<close>

theorem scrape_url_aborts_and_releases:
  "(setup_selenium api = Inl e \<longrightarrow>
      scrape_url api parser decode set_order page_url flag max_links = aborted e None 0) \<and>
   (setup_selenium api = Inr d0 \<and> get api page_url d0 = (Some e, d1) \<longrightarrow>
      scrape_url api parser decode set_order page_url flag max_links = aborted e (Some d1) 1) \<and>
   (setup_selenium api = Inr d0 \<and> get api page_url d0 = (None, d1) \<and> until_ready api d1 = (Some e, d2) \<longrightarrow>
      scrape_url api parser decode set_order page_url flag max_links = aborted e (Some d2) 1) \<and>
   (setup_selenium api = Inr d0 \<and> get api page_url d0 = (None, d1) \<and> until_ready api d1 = (None, d2) \<and>
    scroll_page api d2 = Some (Some e, d3) \<longrightarrow>
      scrape_url api parser decode set_order page_url flag max_links = aborted e (Some d3) 1) \<and>
   (setup_selenium api = Inr d0 \<and> get api page_url d0 = (None, d1) \<and> until_ready api d1 = (None, d2) \<and>
    scroll_page api d2 = Some (None, d3) \<and> page_source api d3 = Inl e \<longrightarrow>
      scrape_url api parser decode set_order page_url flag max_links = aborted e (Some d3) 1) \<and>
   (setup_selenium api = Inr d0 \<and> get api page_url d0 = (None, d1) \<and> until_ready api d1 = (None, d2) \<and>
    scroll_page api d2 = Some (None, d3) \<and> page_source api d3 = Inr src \<and> parser src = Inl e \<longrightarrow>
      scrape_url api parser decode set_order page_url flag max_links = aborted e (Some d3) 1) \<and>
   (setup_selenium api = Inr d0 \<and> get api page_url d0 = (None, d1) \<and> until_ready api d1 = (None, d2) \<and>
    scroll_page api d2 = Some (None, d3) \<and> page_source api d3 = Inr src \<and> parser src = Inr soup \<longrightarrow>
      (\<exists>links_data w'.
         scrape_url api parser decode set_order page_url flag max_links =
           Some ((Some (strip_lines (decode (clean_soup True soup))), links_data), w') \<and>
         quits w' = 2)) \<and>
   (setup_selenium api = Inr d0 \<and>
    scrape_url api parser decode set_order page_url flag max_links = Some (ret, w) \<longrightarrow>
      driver w \<noteq> None \<and> 1 \<le> quits w)"
proof (intro conjI impI; (elim conjE)?)
  assume "setup_selenium api = Inr d0" "get api page_url d0 = (None, d1)" "until_ready api d1 = (None, d2)"
    "scroll_page api d2 = Some (None, d3)" "page_source api d3 = Inr src" "parser src = Inr soup"
  then have "\<exists>links_data w.
     scrape_url api parser decode set_order page_url flag max_links =
       Some ((Some (strip_lines (decode (clean_soup True soup))), links_data), w) \<and>
     reported w = concat (map report_of (attempts api parser decode
        (if flag then slice_to max_links (extract_links set_order soup page_url) else []) d3)) \<and>
     quits w = 2"
    by (rule fetch_succeeds)
  then show "\<exists>links_data w'.
         scrape_url api parser decode set_order page_url flag max_links =
           Some ((Some (strip_lines (decode (clean_soup True soup))), links_data), w') \<and>
         quits w' = 2"
    by blast
next
  assume "setup_selenium api = Inr d0"
    "scrape_url api parser decode set_order page_url flag max_links = Some (ret, w)"
  from scrape_url_releases [OF this(2) this(1)] show "driver w \<noteq> None" by simp
next
  assume "setup_selenium api = Inr d0"
    "scrape_url api parser decode set_order page_url flag max_links = Some (ret, w)"
  from scrape_url_releases [OF this(2) this(1)] show "1 \<le> quits w" by simp
qed (simp_all add: fail_chrome fail_get fail_wait fail_scroll fail_source fail_parse)

theorem scrape_url_aborts_and_releases_witness:
  "scrape_url (example_api 1 []) example_parser print_soup rev ''https://example.com/'' True 5 =
     aborted ''no browser'' None 0 \<and>
   scrape_url (example_api 2 []) example_parser print_soup rev ''https://example.com/'' True 5 =
     aborted ''cannot reach https://example.com/'' (Some ''about:blank'') 1 \<and>
   scrape_url (example_api 3 []) example_parser print_soup rev ''https://example.com/'' True 5 =
     aborted ''timeout'' (Some ''https://example.com/'') 1 \<and>
   scrape_url (example_api 4 []) example_parser print_soup rev ''https://example.com/'' True 5 =
     aborted ''script error'' (Some ''https://example.com/'') 1 \<and>
   scrape_url (example_api 5 []) example_parser print_soup rev ''https://example.com/'' True 5 =
     aborted ''no page'' (Some ''https://example.com/'') 1 \<and>
   scrape_url (example_api 6 []) example_parser print_soup rev ''https://example.com/'' True 5 =
     aborted ''unparseable markup'' (Some ''https://example.com/'') 1 \<and>
   (\<exists>links_data w.
      scrape_url (example_api 0 []) example_parser print_soup rev ''https://example.com/'' True 5 =
        Some ((Some (strip_lines (print_soup (clean_soup True links_soup))), links_data), w) \<and>
      quits w = 2) \<and>
   1 \<le> quits \<lparr>driver = Some ''https://example.com/'',
                reported = [''Error during scraping: timeout''], quits = 1\<rparr>"
proof -
  note t = scrape_url_aborts_and_releases [where parser = example_parser and decode = print_soup
      and set_order = rev and page_url = "''https://example.com/''" and flag = True and max_links = 5]
  have c1: "setup_selenium (example_api 1 []) = Inl ''no browser''"
    by (simp add: example_api_def)
  have c2: "setup_selenium (example_api 2 []) = Inr ''about:blank''"
    and g2: "get (example_api 2 []) ''https://example.com/'' ''about:blank'' =
      (Some ''cannot reach https://example.com/'', ''about:blank'')"
    by (simp_all add: example_api_def)
  have c3: "setup_selenium (example_api 3 []) = Inr ''about:blank''"
    and g3: "get (example_api 3 []) ''https://example.com/'' ''about:blank'' = (None, ''https://example.com/'')"
    and u3: "until_ready (example_api 3 []) ''https://example.com/'' = (Some ''timeout'', ''https://example.com/'')"
    by (simp_all add: example_api_def)
  have c4: "setup_selenium (example_api 4 []) = Inr ''about:blank''"
    and g4: "get (example_api 4 []) ''https://example.com/'' ''about:blank'' = (None, ''https://example.com/'')"
    and u4: "until_ready (example_api 4 []) ''https://example.com/'' = (None, ''https://example.com/'')"
    by (simp_all add: example_api_def)
  have c5: "setup_selenium (example_api 5 []) = Inr ''about:blank''"
    and g5: "get (example_api 5 []) ''https://example.com/'' ''about:blank'' = (None, ''https://example.com/'')"
    and u5: "until_ready (example_api 5 []) ''https://example.com/'' = (None, ''https://example.com/'')"
    by (simp_all add: example_api_def)
  have c6: "setup_selenium (example_api 6 []) = Inr ''about:blank''"
    and g6: "get (example_api 6 []) ''https://example.com/'' ''about:blank'' = (None, ''https://example.com/'')"
    and u6: "until_ready (example_api 6 []) ''https://example.com/'' = (None, ''https://example.com/'')"
    by (simp_all add: example_api_def)
  have c0: "setup_selenium (example_api 0 []) = Inr ''about:blank''"
    and g0: "get (example_api 0 []) ''https://example.com/'' ''about:blank'' = (None, ''https://example.com/'')"
    and u0: "until_ready (example_api 0 []) ''https://example.com/'' = (None, ''https://example.com/'')"
    by (simp_all add: example_api_def)
  have p5: "page_source (example_api 5 []) ''https://example.com/'' = Inl ''no page''"
    and p6: "page_source (example_api 6 []) ''https://example.com/'' = Inr ''<!''"
    and p0: "page_source (example_api 0 []) ''https://example.com/'' = Inr (print_soup links_soup)"
    by (simp_all add: example_api_def)
  have e6: "example_parser ''<!'' = Inl ''unparseable markup''"
    and e0: "example_parser (print_soup links_soup) = Inr links_soup"
    by code_simp+
  have "scrape_url (example_api 1 []) example_parser print_soup rev ''https://example.com/'' True 5 =
     aborted ''no browser'' None 0"
    using t [where api = "example_api 1 []" and e = "''no browser''"] c1 by blast
  moreover have "scrape_url (example_api 2 []) example_parser print_soup rev ''https://example.com/'' True 5 =
     aborted ''cannot reach https://example.com/'' (Some ''about:blank'') 1"
    using t [where api = "example_api 2 []" and e = "''cannot reach https://example.com/''"
        and ?d0.0 = "''about:blank''" and ?d1.0 = "''about:blank''"] c2 g2 by blast
  moreover have "scrape_url (example_api 3 []) example_parser print_soup rev ''https://example.com/'' True 5 =
     aborted ''timeout'' (Some ''https://example.com/'') 1"
    using t [where api = "example_api 3 []" and e = "''timeout''"
        and ?d0.0 = "''about:blank''" and ?d1.0 = "''https://example.com/''"
        and ?d2.0 = "''https://example.com/''"] c3 g3 u3 by blast
  moreover have "scrape_url (example_api 4 []) example_parser print_soup rev ''https://example.com/'' True 5 =
     aborted ''script error'' (Some ''https://example.com/'') 1"
    using t [where api = "example_api 4 []" and e = "''script error''"
        and ?d0.0 = "''about:blank''" and ?d1.0 = "''https://example.com/''"
        and ?d2.0 = "''https://example.com/''" and ?d3.0 = "''https://example.com/''"]
      c4 g4 u4 example_scroll(1) by blast
  moreover have "scrape_url (example_api 5 []) example_parser print_soup rev ''https://example.com/'' True 5 =
     aborted ''no page'' (Some ''https://example.com/'') 1"
    using t [where api = "example_api 5 []" and e = "''no page''"
        and ?d0.0 = "''about:blank''" and ?d1.0 = "''https://example.com/''"
        and ?d2.0 = "''https://example.com/''" and ?d3.0 = "''https://example.com/''"]
      c5 g5 u5 example_scroll(2) p5 by blast
  moreover have "scrape_url (example_api 6 []) example_parser print_soup rev ''https://example.com/'' True 5 =
     aborted ''unparseable markup'' (Some ''https://example.com/'') 1"
    using t [where api = "example_api 6 []" and e = "''unparseable markup''"
        and ?d0.0 = "''about:blank''" and ?d1.0 = "''https://example.com/''"
        and ?d2.0 = "''https://example.com/''" and ?d3.0 = "''https://example.com/''"
        and src = "''<!''"]
      c6 g6 u6 example_scroll(3) p6 e6 by blast
  moreover have "\<exists>links_data w.
      scrape_url (example_api 0 []) example_parser print_soup rev ''https://example.com/'' True 5 =
        Some ((Some (strip_lines (print_soup (clean_soup True links_soup))), links_data), w) \<and>
      quits w = 2"
    using t [where api = "example_api 0 []"
        and ?d0.0 = "''about:blank''" and ?d1.0 = "''https://example.com/''"
        and ?d2.0 = "''https://example.com/''" and ?d3.0 = "''https://example.com/''"
        and src = "print_soup links_soup" and soup = links_soup]
      c0 g0 u0 example_scroll(4) p0 e0 by blast
  ultimately have all:
   "scrape_url (example_api 1 []) example_parser print_soup rev ''https://example.com/'' True 5 =
     aborted ''no browser'' None 0 \<and>
   scrape_url (example_api 2 []) example_parser print_soup rev ''https://example.com/'' True 5 =
     aborted ''cannot reach https://example.com/'' (Some ''about:blank'') 1 \<and>
   scrape_url (example_api 3 []) example_parser print_soup rev ''https://example.com/'' True 5 =
     aborted ''timeout'' (Some ''https://example.com/'') 1 \<and>
   scrape_url (example_api 4 []) example_parser print_soup rev ''https://example.com/'' True 5 =
     aborted ''script error'' (Some ''https://example.com/'') 1 \<and>
   scrape_url (example_api 5 []) example_parser print_soup rev ''https://example.com/'' True 5 =
     aborted ''no page'' (Some ''https://example.com/'') 1 \<and>
   scrape_url (example_api 6 []) example_parser print_soup rev ''https://example.com/'' True 5 =
     aborted ''unparseable markup'' (Some ''https://example.com/'') 1 \<and>
   (\<exists>links_data w.
      scrape_url (example_api 0 []) example_parser print_soup rev ''https://example.com/'' True 5 =
        Some ((Some (strip_lines (print_soup (clean_soup True links_soup))), links_data), w) \<and>
      quits w = 2)"
    by blast
  then have "scrape_url (example_api 3 []) example_parser print_soup rev ''https://example.com/'' True 5 =
      Some ((None, []), \<lparr>driver = Some ''https://example.com/'',
        reported = [''Error during scraping: timeout''], quits = 1\<rparr>)"
    by (simp add: aborted_def)
  with c3 have "1 \<le> quits \<lparr>driver = Some ''https://example.com/'',
      reported = [''Error during scraping: timeout''], quits = 1\<rparr>"
    using t [where api = "example_api 3 []" and ?d0.0 = "''about:blank''"] by blast
  with all show ?thesis by blast
qed

section \<open>The analysis client\<close>

text \<open>
  Claim C8. \<open>analyze_html_content\<close> submits its prompt once, whatever the answer: it
  returns the text of the reply when there is one, the empty string when the reply has no
  \<open>text\<close> attribute or an empty one, and when the submission fails the failure goes to
  the caller as it is (as does a failure to read the reply's text).
\<close>

theorem analyze_html_content_result:
  "(generate_content calls
      (format_prompt system_prompt_text (content_prompt_text html_content)) temperature =
      Inr (Value reply) \<and> reply \<noteq> [] \<longrightarrow>
    analyze_html_content generate_content temperature html_content calls = (Inr reply, Suc calls)) \<and>
   (generate_content calls
      (format_prompt system_prompt_text (content_prompt_text html_content)) temperature = Inr Absent \<or>
    generate_content calls
      (format_prompt system_prompt_text (content_prompt_text html_content)) temperature = Inr (Value []) \<longrightarrow>
    analyze_html_content generate_content temperature html_content calls = (Inr [], Suc calls)) \<and>
   (generate_content calls
      (format_prompt system_prompt_text (content_prompt_text html_content)) temperature = Inl e \<longrightarrow>
    analyze_html_content generate_content temperature html_content calls = (Inl e, Suc calls)) \<and>
   (generate_content calls
      (format_prompt system_prompt_text (content_prompt_text html_content)) temperature =
      Inr (Raises e) \<longrightarrow>
    analyze_html_content generate_content temperature html_content calls = (Inl e, Suc calls)) \<and>
   snd (analyze_html_content generate_content temperature html_content calls) = Suc calls"
  by (auto simp: analyze_html_content_def single_shot_completion_def Let_def
      split: sum.splits response.splits)

theorem analyze_html_content_result_witness:
  "analyze_html_content example_service ''0.7'' ''<p>Hi</p>'' 0 =
     (Inr ''A page with a logo at the top left.'', 1) \<and>
   analyze_html_content example_service ''0.7'' ''<p>Hi</p>'' 1 = (Inr [], 2) \<and>
   analyze_html_content example_service ''0.7'' ''<p>Hi</p>'' 2 = (Inr [], 3) \<and>
   analyze_html_content example_service ''0.7'' ''<p>Hi</p>'' 3 = (Inl ''quota exceeded'', 4) \<and>
   analyze_html_content example_service ''0.7'' ''<p>Hi</p>'' 4 = (Inl ''response was blocked'', 5)"
proof -
  note t = analyze_html_content_result [where generate_content = example_service
      and temperature = "''0.7''" and html_content = "''<p>Hi</p>''"]
  have "analyze_html_content example_service ''0.7'' ''<p>Hi</p>'' 0 =
     (Inr ''A page with a logo at the top left.'', 1)"
    using t [where calls = 0 and reply = "''A page with a logo at the top left.''"]
    by (simp add: example_service_def)
  moreover have "analyze_html_content example_service ''0.7'' ''<p>Hi</p>'' 1 = (Inr [], 2)"
    using t [where calls = 1] by (simp add: example_service_def)
  moreover have "analyze_html_content example_service ''0.7'' ''<p>Hi</p>'' 2 = (Inr [], 3)"
    using t [where calls = 2] by (simp add: example_service_def)
  moreover have "analyze_html_content example_service ''0.7'' ''<p>Hi</p>'' 3 = (Inl ''quota exceeded'', 4)"
    using t [where calls = 3 and e = "''quota exceeded''"] by (simp add: example_service_def)
  moreover have "analyze_html_content example_service ''0.7'' ''<p>Hi</p>'' 4 = (Inl ''response was blocked'', 5)"
    using t [where calls = 4 and e = "''response was blocked''"] by (simp add: example_service_def)
  ultimately show ?thesis by blast
qed


end
